theory Spec2Isabelle
  imports Complex_Main "HOL-Library.AList"
begin

section \<open>Hailstone trajectory solver (src/aoc24/part2.py)\<close>

text \<open>
  The script reads hailstones from the lines of a file, builds for every hailstone \<open>i\<close> and every axis \<open>p\<close> the
  expression \<open>h.s[p] + h.d[p]*t_i - s_p - d_p*t_i\<close> over sympy symbols, prints the
  expressions, hands all of them together with every symbol of its table to
  \<open>sympy.solve\<close>, takes the first solution tuple and prints the sum of its first three
  entries.

  Modelling decisions.
  \<^item> A Python number is a \<open>pynum\<close>: an \<open>int\<close> or a \<open>float\<close>. A float is represented by the
    real number it denotes; rounding, infinities and NaN are outside the model. The script
    itself performs no arithmetic on numbers: it only builds sympy expressions from them.
  \<^item> A sympy expression is a syntax tree \<open>expr\<close>; sympy's automatic normalisation of
    expressions is not modelled, an expression stands for its value under \<open>eval\<close>. Sympy
    symbols range over the complex numbers, so \<open>eval\<close> is complex valued.
  \<^item> A Python \<open>dict\<close> keeps insertion order; it is an association list updated with
    \<open>AList.update\<close> (in place when the key exists, appended otherwise).
  \<^item> \<open>sympy.solve\<close> is library code outside the repository: it is a parameter \<open>slv\<close> of
    the model, a function from the equations and the unknowns to an exception or a list of
    solution tuples. Python's \<open>float\<close> is a parameter \<open>flt\<close> of the input reader in the
    same way.
  \<^item> Standard output is the list of the \<open>print\<close> calls made, each with the object printed
    (the text sympy formats for an expression is not modelled).
  \<^item> Exceptions are values: a function that can raise returns \<open>error + 'a\<close>.
\<close>

subsection \<open>Python values, exceptions, lists and dictionaries\<close>

datatype pynum = PyInt int | PyFloat real

fun num_val :: "pynum \<Rightarrow> complex" where
  "num_val (PyInt n) = of_int n"
| "num_val (PyFloat x) = of_real x"


datatype error = IndexError | KeyError | ValueError | SolverRaised

text \<open>\<open>xs[i]\<close> for a non-negative index.\<close>

definition getitem :: "'a list \<Rightarrow> nat \<Rightarrow> error + 'a" where
  "getitem xs i = (if i < length xs then Inr (xs ! i) else Inl IndexError)"

text \<open>\<open>d[k]\<close> on a dictionary.\<close>

definition dict_get :: "(string \<times> 'v) list \<Rightarrow> string \<Rightarrow> error + 'v" where
  "dict_get dct k = (case map_of dct k of None \<Rightarrow> Inl KeyError | Some v \<Rightarrow> Inr v)"

text \<open>Sequencing of computations that may raise.\<close>

definition bind_err :: "error + 'a \<Rightarrow> ('a \<Rightarrow> error + 'b) \<Rightarrow> error + 'b" where
  "bind_err m f = (case m of Inl e \<Rightarrow> Inl e | Inr x \<Rightarrow> f x)"

text \<open>The decimal text of a natural number, as \<open>f"{idx}"\<close> formats a loop index.\<close>

definition digit_char :: "nat \<Rightarrow> char" where
  "digit_char n = ''0123456789'' ! n"

fun str_nat :: "nat \<Rightarrow> string" where
  "str_nat n = (if n < 10 then [digit_char n] else str_nat (n div 10) @ [digit_char (n mod 10)])"

declare str_nat.simps [simp del]

subsection \<open>Sympy expressions\<close>

datatype expr = Num pynum | Sym string | Add expr expr | Sub expr expr | Mul expr expr

fun eval :: "(string \<Rightarrow> complex) \<Rightarrow> expr \<Rightarrow> complex" where
  "eval env (Num c) = num_val c"
| "eval env (Sym x) = env x"
| "eval env (Add a b) = eval env a + eval env b"
| "eval env (Sub a b) = eval env a - eval env b"
| "eval env (Mul a b) = eval env a * eval env b"

fun free_symbols :: "expr \<Rightarrow> string set" where
  "free_symbols (Num c) = {}"
| "free_symbols (Sym x) = {x}"
| "free_symbols (Add a b) = free_symbols a \<union> free_symbols b"
| "free_symbols (Sub a b) = free_symbols a \<union> free_symbols b"
| "free_symbols (Mul a b) = free_symbols a \<union> free_symbols b"

text \<open>\<open>sympy.symbols(name)\<close> for a single name.\<close>

definition symbols :: "string \<Rightarrow> expr" where
  "symbols name = Sym name"

text \<open>
  \<open>sympy.solve(equations, unknowns)\<close>: each expression is an equation \<open>e = 0\<close>; the answer
  is a list of tuples, a tuple giving one expression per unknown, in the order of the
  unknowns.
\<close>

type_synonym solver = "expr list \<Rightarrow> expr list \<Rightarrow> error + expr list list"

subsection \<open>class H and the record of class Symbols\<close>

text \<open>
  The fields \<open>s\<close> and \<open>d\<close> of \<open>H\<close>, and \<open>s\<close> and \<open>_h\<close> of \<open>Symbols\<close>, carry the class
  name as a prefix.
\<close>

record H =
  H_s :: "pynum list"
  H_d :: "pynum list"

record Symbols =
  Symbols_s :: "(string \<times> expr) list"
  Symbols_h :: "H list"

subsection \<open>Reading the input (lines 49 to 56)\<close>






subsection \<open>class Symbols\<close>

text \<open>\<open>Symbols.__init__\<close>: the loop over the six names is a fold.\<close>

definition Symbols_init :: Symbols where
  "Symbols_init =
     fold (\<lambda>name st. st\<lparr>Symbols_s := AList.update name (symbols name) (Symbols_s st)\<rparr>)
       [''sx'', ''sy'', ''sz'', ''dx'', ''dy'', ''dz'']
       \<lparr>Symbols_s = [], Symbols_h = []\<rparr>"

definition add_for_h :: "Symbols \<Rightarrow> H \<Rightarrow> nat \<Rightarrow> Symbols" where
  "add_for_h st h idx =
     st\<lparr>Symbols_s := AList.update (''t'' @ str_nat idx) (symbols (''t'' @ str_nat idx)) (Symbols_s st)\<rparr>"

text \<open>\<open>add_all\<close>: the loop over \<open>enumerate(h)\<close>, the index counting from 0.\<close>

fun add_all_loop :: "Symbols \<Rightarrow> nat \<Rightarrow> H list \<Rightarrow> Symbols" where
  "add_all_loop st idx [] = st"
| "add_all_loop st idx (x # xs) =
     add_all_loop (add_for_h (st\<lparr>Symbols_h := Symbols_h st @ [x]\<rparr>) x idx) (Suc idx) xs"

definition add_all :: "Symbols \<Rightarrow> H list \<Rightarrow> Symbols" where
  "add_all st h = add_all_loop st 0 h"

subsection \<open>Symbols.solve\<close>

text \<open>
  The expression appended for hailstone \<open>i\<close> and axis \<open>vi\<close>, named \<open>p\<close>; the lookups happen
  in Python's evaluation order, left to right.
\<close>

definition equation :: "Symbols \<Rightarrow> nat \<Rightarrow> H \<Rightarrow> nat \<Rightarrow> char \<Rightarrow> error + expr" where
  "equation st i h vi p =
     bind_err (getitem (H_s h) vi) (\<lambda>a.
     bind_err (getitem (H_d h) vi) (\<lambda>b.
     bind_err (dict_get (Symbols_s st) (''t'' @ str_nat i)) (\<lambda>t.
     bind_err (dict_get (Symbols_s st) (''s'' @ [p])) (\<lambda>sp.
     bind_err (dict_get (Symbols_s st) (''d'' @ [p])) (\<lambda>dp.
     bind_err (dict_get (Symbols_s st) (''t'' @ str_nat i)) (\<lambda>t'.
       Inr (Sub (Sub (Add (Num a) (Mul (Num b) t)) sp) (Mul dp t'))))))))"

text \<open>The inner loop \<open>for vi, p in enumerate("xyz")\<close>, appending to \<open>equations\<close>.\<close>

fun axes_loop :: "Symbols \<Rightarrow> nat \<Rightarrow> H \<Rightarrow> nat \<Rightarrow> string \<Rightarrow> expr list \<Rightarrow> error + expr list" where
  "axes_loop st i h vi [] equations = Inr equations"
| "axes_loop st i h vi (p # ps) equations =
     bind_err (equation st i h vi p) (\<lambda>e. axes_loop st i h (Suc vi) ps (equations @ [e]))"

text \<open>The outer loop \<open>for i, h in enumerate(self._h)\<close>.\<close>

fun hailstones_loop :: "Symbols \<Rightarrow> nat \<Rightarrow> H list \<Rightarrow> expr list \<Rightarrow> error + expr list" where
  "hailstones_loop st i [] equations = Inr equations"
| "hailstones_loop st i (h # hs) equations =
     bind_err (axes_loop st i h 0 ''xyz'' equations) (\<lambda>eqs. hailstones_loop st (Suc i) hs eqs)"

definition build_equations :: "Symbols \<Rightarrow> error + expr list" where
  "build_equations st = hailstones_loop st 0 (Symbols_h st) []"

text \<open>\<open>v = [x for x in self.s.values()]\<close>.\<close>

definition unknowns :: "Symbols \<Rightarrow> expr list" where
  "unknowns st = map snd (Symbols_s st)"

datatype print_call =
    PrintH H
  | PrintSymbols "(string \<times> expr) list"
  | PrintEquation expr
  | PrintPlace "expr list"
  | PrintSum expr

text \<open>
  \<open>solve\<close> returns what it printed and its result: an exception, or the first tuple of
  the solver's answer. Nothing is printed when building the equations raises.
\<close>

definition solve :: "solver \<Rightarrow> Symbols \<Rightarrow> print_call list \<times> (error + expr list)" where
  "solve slv st =
     (case build_equations st of
        Inl e \<Rightarrow> ([], Inl e)
      | Inr equations \<Rightarrow>
          (map PrintEquation equations,
           bind_err (slv equations (unknowns st)) (\<lambda>sols. getitem sols 0)))"

subsection \<open>The script, from the parsed \<open>data\<close> on (lines 58 to 69)\<close>

text \<open>
  The script prints every hailstone and the symbol table, calls \<open>solve\<close>, prints the
  slice \<open>result[0:6]\<close> and then the sum \<open>result[0] + result[1] + result[2]\<close>. The model
  returns what was printed, and the exception that ended the script or else the sum it
  printed last.
\<close>

definition script :: "solver \<Rightarrow> H list \<Rightarrow> print_call list \<times> (error + expr)" where
  "script slv data =
     (let out1 = map PrintH data;
          st = add_all Symbols_init data;
          out2 = out1 @ [PrintSymbols (Symbols_s st)];
          (printed, r) = solve slv st;
          out3 = out2 @ printed
      in case r of
           Inl e \<Rightarrow> (out3, Inl e)
         | Inr result \<Rightarrow>
             (let out4 = out3 @ [PrintPlace (take 6 result)]
              in case bind_err (getitem result 0) (\<lambda>r0.
                      bind_err (getitem result 1) (\<lambda>r1.
                      bind_err (getitem result 2) (\<lambda>r2. Inr (Add (Add r0 r1) r2)))) of
                   Inl e \<Rightarrow> (out4, Inl e)
                 | Inr psum \<Rightarrow> (out4 @ [PrintSum psum], Inr psum)))"

subsection \<open>Vocabulary of the statements\<close>

text \<open>The key \<open>f"t{i}"\<close> of the time unknown of hailstone \<open>i\<close>.\<close>

definition time_name :: "nat \<Rightarrow> string" where
  "time_name i = ''t'' @ str_nat i"

text \<open>The six fixed names followed by the time names of \<open>n\<close> hailstones.\<close>

definition unknown_names :: "nat \<Rightarrow> string list" where
  "unknown_names n = [''sx'', ''sy'', ''sz'', ''dx'', ''dy'', ''dz''] @ map time_name [0..<n]"

text \<open>Reading a decimal text back, to show that \<open>str_nat\<close> is injective.\<close>

definition digits_value :: "string \<Rightarrow> nat" where
  "digits_value cs = foldl (\<lambda>a c. 10 * a + (of_char c - 48)) 0 cs"

text \<open>
  The expression \<open>h.s[vi] + h.d[vi]*t_i - s_p - d_p*t_i\<close> written out, and the list of
  these expressions for hailstones numbered from \<open>i\<close>, three per hailstone.
\<close>

definition residual :: "nat \<Rightarrow> H \<Rightarrow> nat \<Rightarrow> char \<Rightarrow> expr" where
  "residual i h vi p =
     Sub (Sub (Add (Num (H_s h ! vi)) (Mul (Num (H_d h ! vi)) (Sym (time_name i))))
              (Sym [CHR ''s'', p]))
         (Mul (Sym [CHR ''d'', p]) (Sym (time_name i)))"

fun equations_from :: "nat \<Rightarrow> H list \<Rightarrow> expr list" where
  "equations_from i [] = []"
| "equations_from i (h # hs) =
     [residual i h 0 CHR ''x'', residual i h 1 CHR ''y'', residual i h 2 CHR ''z'']
     @ equations_from (Suc i) hs"

text \<open>A hailstone with at least three position and three velocity components.\<close>

definition well_formed :: "H \<Rightarrow> bool" where
  "well_formed h \<longleftrightarrow> 3 \<le> length (H_s h) \<and> 3 \<le> length (H_d h)"

text \<open>The symbol table holding the six fixed unknowns and \<open>n\<close> time unknowns.\<close>

definition symbol_table :: "nat \<Rightarrow> (string \<times> expr) list" where
  "symbol_table n = map (\<lambda>k. (k, Sym k)) (unknown_names n)"

text \<open>
  What a solver promises of a tuple it returns: it has one entry per unknown, and
  replacing every unknown by its entry makes every equation zero, whatever values \<open>env\<close>
  gives to the symbols left free in the entries (the parameters of a parametrised
  solution).
\<close>

definition bind_unknowns :: "(string \<Rightarrow> complex) \<Rightarrow> expr list \<Rightarrow> expr list \<Rightarrow> string \<Rightarrow> complex" where
  "bind_unknowns env v tuple x =
     (case map_of (zip v tuple) (Sym x) of None \<Rightarrow> env x | Some t \<Rightarrow> eval env t)"

definition is_solution :: "expr list \<Rightarrow> expr list \<Rightarrow> expr list \<Rightarrow> bool" where
  "is_solution equations v tuple \<longleftrightarrow>
     length tuple = length v \<and>
     (\<forall>env. \<forall>e \<in> set equations. eval (bind_unknowns env v tuple) e = 0)"

text \<open>The character \<open>p\<close> that \<open>enumerate("xyz")\<close> pairs with the index \<open>vi\<close>.\<close>

definition axis_name :: "nat \<Rightarrow> char" where
  "axis_name vi = ''xyz'' ! vi"

text \<open>
  The object \<open>H(s, d)\<close> that the script builds from an input line
  \<open>x, y, z @ vx, vy, vz\<close>: its six numbers are floats.
\<close>

definition hailstone :: "real \<Rightarrow> real \<Rightarrow> real \<Rightarrow> real \<Rightarrow> real \<Rightarrow> real \<Rightarrow> H" where
  "hailstone x y z vx vy vz =
     \<lparr>H_s = [PyFloat x, PyFloat y, PyFloat z], H_d = [PyFloat vx, PyFloat vy, PyFloat vz]\<rparr>"

text \<open>The five hailstones of the worked example.\<close>

definition canonical_data :: "H list" where
  "canonical_data =
     [hailstone 19 13 30 (-2) 1 (-2),
      hailstone 18 19 22 (-1) (-1) (-2),
      hailstone 20 25 34 (-2) (-2) (-4),
      hailstone 12 31 28 (-1) (-2) (-1),
      hailstone 20 19 15 1 (-5) (-3)]"

text \<open>A solver that answers the given list of tuples; it instantiates \<open>slv\<close> in examples.\<close>

definition answer_with :: "expr list list \<Rightarrow> solver" where
  "answer_with sols equations v = Inr sols"

text \<open>A tuple of float entries.\<close>

definition numbers :: "real list \<Rightarrow> expr list" where
  "numbers xs = map (\<lambda>x. Num (PyFloat x)) xs"

text \<open>
  The solution of the worked example: position \<open>(24, 13, 10)\<close>, velocity \<open>(-3, 1, 2)\<close>, and
  the meeting times \<open>5, 3, 4, 6, 1\<close>.
\<close>

definition canonical_tuple :: "expr list" where
  "canonical_tuple = numbers [24, 13, 10, -3, 1, 2, 5, 3, 4, 6, 1]"

text \<open>A single hailstone, and a tuple that meets it at time 0 with velocity zero.\<close>

definition lone_data :: "H list" where
  "lone_data = [hailstone 19 13 30 (-2) 1 (-2)]"

definition lone_tuple :: "expr list" where
  "lone_tuple = numbers [19, 13, 30, 0, 0, 0, 0]"

text \<open>
  Three hailstones with one velocity, their positions on a line, and a tuple that meets
  them at the times 0, 1 and 2.
\<close>

definition shared_data :: "H list" where
  "shared_data =
     [hailstone 19 13 30 (-2) 1 (-2),
      hailstone 18 19 22 (-2) 1 (-2),
      hailstone 17 25 14 (-2) 1 (-2)]"

definition shared_tuple :: "expr list" where
  "shared_tuple = numbers [19, 13, 30, -3, 7, -10, 0, 1, 2]"






section \<open>Properties\<close>

subsection \<open>The symbol table after \<open>add_all\<close>\<close>

lemma digit_char_code: "k < 10 \<Longrightarrow> of_char (digit_char k) = (48 + k :: nat)"
proof -
  assume "k < 10"
  then consider "k = 0" | "k = 1" | "k = 2" | "k = 3" | "k = 4" | "k = 5" | "k = 6" | "k = 7"
    | "k = 8" | "k = 9"
    by atomize_elim arith
  then show ?thesis
    by cases (simp_all add: digit_char_def)
qed

lemma digits_value_str_nat: "digits_value (str_nat n) = n"
proof (induction n rule: str_nat.induct)
  case (1 n)
  show ?case
  proof (cases "n < 10")
    case True
    then show ?thesis
      by (subst str_nat.simps) (simp add: digits_value_def digit_char_code)
  next
    case False
    have "digits_value (str_nat n) = 10 * digits_value (str_nat (n div 10)) + n mod 10"
      using False
      by (subst str_nat.simps) (simp add: digits_value_def digit_char_code)
    with 1 False show ?thesis by simp
  qed
qed

lemma str_nat_inj: "str_nat m = str_nat n \<Longrightarrow> m = n"
  by (metis digits_value_str_nat)

lemma time_name_inj: "time_name m = time_name n \<longleftrightarrow> m = n"
  by (auto simp: time_name_def dest: str_nat_inj)

lemma str_nat_digit: "n < 10 \<Longrightarrow> str_nat n = [digit_char n]"
  by (subst str_nat.simps) simp

lemma time_name_0: "time_name 0 = ''t0''"
  by (simp add: time_name_def str_nat_digit digit_char_def)

lemma time_name_not_fixed:
  "time_name i \<notin> set [''sx'', ''sy'', ''sz'', ''dx'', ''dy'', ''dz'']"
  by (simp add: time_name_def)

lemma Symbols_init_s:
  "Symbols_s Symbols_init = map (\<lambda>k. (k, Sym k)) (unknown_names 0)"
  by (simp add: Symbols_init_def symbols_def unknown_names_def)

lemma Symbols_init_h: "Symbols_h Symbols_init = []"
  by (simp add: Symbols_init_def)

lemma unknown_names_Suc: "unknown_names (Suc n) = unknown_names n @ [time_name n]"
  by (simp add: unknown_names_def)

lemma time_name_fresh: "time_name n \<notin> set (unknown_names n)"
  using time_name_not_fixed [of n] by (auto simp: unknown_names_def time_name_inj)

lemma update_fresh: "k \<notin> fst ` set al \<Longrightarrow> AList.update k v al = al @ [(k, v)]"
  by (induction al) auto

lemma add_for_h_time_name:
  "add_for_h st h idx =
     st\<lparr>Symbols_s := AList.update (time_name idx) (Sym (time_name idx)) (Symbols_s st)\<rparr>"
  by (simp add: add_for_h_def time_name_def symbols_def)

lemma add_all_loop_s:
  "Symbols_s st = map (\<lambda>k. (k, Sym k)) (unknown_names n) \<Longrightarrow>
   Symbols_s (add_all_loop st n xs) = map (\<lambda>k. (k, Sym k)) (unknown_names (n + length xs))"
proof (induction xs arbitrary: st n)
  case Nil
  then show ?case by simp
next
  case (Cons x xs)
  let ?st = "add_for_h (st\<lparr>Symbols_h := Symbols_h st @ [x]\<rparr>) x n"
  have "time_name n \<notin> fst ` set (Symbols_s st)"
    using time_name_fresh [of n] by (simp add: Cons.prems image_image)
  then have "Symbols_s ?st = map (\<lambda>k. (k, Sym k)) (unknown_names (Suc n))"
    by (simp add: add_for_h_time_name update_fresh unknown_names_Suc Cons.prems)
  from Cons.IH [OF this] show ?case by simp
qed

lemma add_all_loop_h: "Symbols_h (add_all_loop st n xs) = Symbols_h st @ xs"
  by (induction xs arbitrary: st n) (simp_all add: add_for_h_def)

lemma add_all_s:
  "Symbols_s (add_all Symbols_init hs) = map (\<lambda>k. (k, Sym k)) (unknown_names (length hs))"
  using add_all_loop_s [OF Symbols_init_s, of hs] by (simp add: add_all_def)

lemma add_all_h: "Symbols_h (add_all Symbols_init hs) = hs"
  by (simp add: add_all_def add_all_loop_h Symbols_init_h)

subsection \<open>The equations that \<open>solve\<close> builds\<close>

lemma dict_get_symbol_table:
  "k \<in> set (unknown_names n) \<Longrightarrow> dict_get (symbol_table n) k = Inr (Sym k)"
  by (simp add: dict_get_def symbol_table_def map_of_map_restrict)

lemma time_name_known: "i < n \<Longrightarrow> time_name i \<in> set (unknown_names n)"
  by (simp add: unknown_names_def)

lemma equation_residual:
  assumes "Symbols_s st = symbol_table n" "i < n" "well_formed h"
    and "(vi, p) \<in> {(0, CHR ''x''), (1, CHR ''y''), (2, CHR ''z'')}"
  shows "equation st i h vi p = Inr (residual i h vi p)"
proof -
  have t: "dict_get (symbol_table n) (time_name i) = Inr (Sym (time_name i))"
    using assms(2) by (simp add: dict_get_symbol_table time_name_known)
  have sd: "dict_get (symbol_table n) [CHR ''s'', p] = Inr (Sym [CHR ''s'', p])"
    "dict_get (symbol_table n) [CHR ''d'', p] = Inr (Sym [CHR ''d'', p])"
    using assms(4) by (auto intro!: dict_get_symbol_table simp: unknown_names_def)
  have g: "getitem (H_s h) vi = Inr (H_s h ! vi)" "getitem (H_d h) vi = Inr (H_d h ! vi)"
    using assms(3,4) by (auto simp: getitem_def well_formed_def)
  have tn: "''t'' @ str_nat i = time_name i"
    by (simp add: time_name_def)
  show ?thesis
    unfolding equation_def tn assms(1)
    by (simp add: bind_err_def t sd g residual_def)
qed

lemma axes_loop_residual:
  assumes "Symbols_s st = symbol_table n" "i < n" "well_formed h"
  shows "axes_loop st i h 0 ''xyz'' acc =
         Inr (acc @ [residual i h 0 CHR ''x'', residual i h 1 CHR ''y'', residual i h 2 CHR ''z''])"
proof -
  have "equation st i h 0 CHR ''x'' = Inr (residual i h 0 CHR ''x'')"
    "equation st i h (Suc 0) CHR ''y'' = Inr (residual i h 1 CHR ''y'')"
    "equation st i h (Suc (Suc 0)) CHR ''z'' = Inr (residual i h 2 CHR ''z'')"
    using equation_residual [OF assms, of 0 "CHR ''x''"]
      equation_residual [OF assms, of 1 "CHR ''y''"]
      equation_residual [OF assms, of 2 "CHR ''z''"]
    by (simp_all add: numeral_2_eq_2)
  then show ?thesis
    by (simp add: bind_err_def)
qed

lemma hailstones_loop_residual:
  assumes "Symbols_s st = symbol_table n"
  shows "i + length hs \<le> n \<Longrightarrow> list_all well_formed hs \<Longrightarrow>
         hailstones_loop st i hs acc = Inr (acc @ equations_from i hs)"
proof (induction hs arbitrary: i acc)
  case Nil
  then show ?case by simp
next
  case (Cons h hs)
  then have "i < n" "well_formed h" "Suc i + length hs \<le> n" "list_all well_formed hs"
    by simp_all
  then show ?case
    using Cons.IH [of "Suc i"] axes_loop_residual [OF assms \<open>i < n\<close> \<open>well_formed h\<close>]
    by (simp add: bind_err_def)
qed

lemma build_equations_add_all:
  assumes "list_all well_formed hs"
  shows "build_equations (add_all Symbols_init hs) = Inr (equations_from 0 hs)"
  using hailstones_loop_residual [of "add_all Symbols_init hs" "length hs" 0 hs "[]"] assms
  by (simp add: build_equations_def add_all_h add_all_s symbol_table_def)

lemma unknowns_add_all:
  "unknowns (add_all Symbols_init hs) = map Sym (unknown_names (length hs))"
  by (simp add: unknowns_def add_all_s comp_def)

lemma length_equations_from: "length (equations_from i hs) = 3 * length hs"
  by (induction hs arbitrary: i) simp_all

subsection \<open>Solutions of the equations\<close>

lemma distinct_unknown_names: "distinct (unknown_names n)"
  by (auto simp: unknown_names_def distinct_map inj_on_def time_name_def dest: str_nat_inj)

lemma length_unknown_names: "length (unknown_names n) = 6 + n"
  by (simp add: unknown_names_def)

lemma bind_unknowns_nth:
  assumes "length r = 6 + n" "j < 6 + n"
  shows "bind_unknowns env (map Sym (unknown_names n)) r (unknown_names n ! j) = eval env (r ! j)"
proof -
  have d: "distinct (map Sym (unknown_names n))"
    by (simp add: distinct_map distinct_unknown_names inj_on_def)
  have "map_of (zip (map Sym (unknown_names n)) r) (map Sym (unknown_names n) ! j) = Some (r ! j)"
    using assms by (intro map_of_zip_nth d) (simp_all add: length_unknown_names)
  then show ?thesis
    using assms by (simp add: bind_unknowns_def length_unknown_names)
qed

lemma unknown_names_nth_time: "i < n \<Longrightarrow> unknown_names n ! (6 + i) = time_name i"
  by (simp add: unknown_names_def nth_append)

lemma unknown_names_nth_pos: "vi < 3 \<Longrightarrow> unknown_names n ! vi = [CHR ''s'', axis_name vi]"
proof -
  assume "vi < 3"
  then consider "vi = 0" | "vi = 1" | "vi = 2" by atomize_elim arith
  then show ?thesis
    by cases (simp_all add: unknown_names_def axis_name_def)
qed

lemma unknown_names_nth_vel: "vi < 3 \<Longrightarrow> unknown_names n ! (3 + vi) = [CHR ''d'', axis_name vi]"
proof -
  assume "vi < 3"
  then consider "vi = 0" | "vi = 1" | "vi = 2" by atomize_elim arith
  then show ?thesis
    by cases (simp_all add: unknown_names_def axis_name_def)
qed

lemma eval_residual:
  assumes "length r = 6 + n" "i < n" "vi < 3"
  shows "eval (bind_unknowns env (map Sym (unknown_names n)) r) (residual i h vi (axis_name vi)) =
         num_val (H_s h ! vi) + num_val (H_d h ! vi) * eval env (r ! (6 + i))
         - eval env (r ! vi) - eval env (r ! (3 + vi)) * eval env (r ! (6 + i))"
proof -
  have "bind_unknowns env (map Sym (unknown_names n)) r (time_name i) = eval env (r ! (6 + i))"
    using bind_unknowns_nth [OF assms(1), of "6 + i" env] assms(2)
    by (simp add: unknown_names_nth_time)
  moreover have "bind_unknowns env (map Sym (unknown_names n)) r [CHR ''s'', axis_name vi] = eval env (r ! vi)"
    using bind_unknowns_nth [OF assms(1), of vi env] assms(3)
    by (simp add: unknown_names_nth_pos)
  moreover have "bind_unknowns env (map Sym (unknown_names n)) r [CHR ''d'', axis_name vi] = eval env (r ! (3 + vi))"
    using bind_unknowns_nth [OF assms(1), of "3 + vi" env] assms(3)
    by (simp add: unknown_names_nth_vel)
  ultimately show ?thesis
    by (simp add: residual_def)
qed

lemma all_less_3: "(\<forall>vi < 3. Q vi) \<longleftrightarrow> Q (0::nat) \<and> Q 1 \<and> Q 2"
proof -
  have "vi < 3 \<longleftrightarrow> vi = 0 \<or> vi = 1 \<or> vi = 2" for vi :: nat by arith
  then show ?thesis by metis
qed

lemma ball_equations_from:
  "(\<forall>e \<in> set (equations_from k hs). P e) \<longleftrightarrow>
   (\<forall>i < length hs. \<forall>vi < 3. P (residual (k + i) (hs ! i) vi (axis_name vi)))"
proof (induction hs arbitrary: k)
  case Nil
  then show ?case by simp
next
  case (Cons h hs)
  have "(\<forall>e \<in> set (equations_from k (h # hs)). P e) \<longleftrightarrow>
        (P (residual k h 0 CHR ''x'') \<and> P (residual k h 1 CHR ''y'') \<and> P (residual k h 2 CHR ''z''))
        \<and> (\<forall>e \<in> set (equations_from (Suc k) hs). P e)"
    by (simp add: ball_Un)
  also have "\<dots> \<longleftrightarrow> (\<forall>vi < 3. P (residual k h vi (axis_name vi)))
        \<and> (\<forall>i < length hs. \<forall>vi < 3. P (residual (Suc k + i) (hs ! i) vi (axis_name vi)))"
    unfolding Cons.IH all_less_3 by (simp add: axis_name_def)
  also have "\<dots> \<longleftrightarrow>
        (\<forall>i < length (h # hs). \<forall>vi < 3. P (residual (k + i) ((h # hs) ! i) vi (axis_name vi)))"
    by (simp add: All_less_Suc2)
  finally show ?case .
qed

lemma is_solution_equations_from:
  assumes "length r = 6 + length hs"
  shows "is_solution (equations_from 0 hs) (map Sym (unknown_names (length hs))) r \<longleftrightarrow>
    (\<forall>env. \<forall>i < length hs. \<forall>vi < 3.
       num_val (H_s (hs ! i) ! vi) + num_val (H_d (hs ! i) ! vi) * eval env (r ! (6 + i))
         - eval env (r ! vi) - eval env (r ! (3 + vi)) * eval env (r ! (6 + i)) = 0)"
proof -
  let ?\<sigma> = "\<lambda>env. bind_unknowns env (map Sym (unknown_names (length hs))) r"
  have "(\<forall>e \<in> set (equations_from 0 hs). eval (?\<sigma> env) e = 0) \<longleftrightarrow>
        (\<forall>i < length hs. \<forall>vi < 3. eval (?\<sigma> env) (residual i (hs ! i) vi (axis_name vi)) = 0)"
    for env
    using ball_equations_from [of 0 hs "\<lambda>e. eval (?\<sigma> env) e = 0"] by simp
  then show ?thesis
    by (simp add: is_solution_def assms length_unknown_names eval_residual [OF assms])
qed

subsection \<open>The worked example\<close>

lemma well_formed_hailstone: "well_formed (hailstone x y z vx vy vz)"
  by (simp add: well_formed_def hailstone_def)

lemma well_formed_canonical: "list_all well_formed canonical_data"
  by (simp add: canonical_data_def well_formed_hailstone)

lemma solve_add_all:
  assumes "list_all well_formed hs"
  shows "solve slv (add_all Symbols_init hs) =
         (map PrintEquation (equations_from 0 hs),
          bind_err (slv (equations_from 0 hs) (map Sym (unknown_names (length hs))))
            (\<lambda>sols. getitem sols 0))"
  by (simp add: solve_def build_equations_add_all [OF assms] unknowns_add_all)

lemma script_result:
  assumes "snd (solve slv (add_all Symbols_init data)) = Inr r" "3 \<le> length r"
  shows "snd (script slv data) = Inr (Add (Add (r ! 0) (r ! 1)) (r ! 2))"
proof -
  obtain printed where "solve slv (add_all Symbols_init data) = (printed, Inr r)"
    using assms(1) by (cases "solve slv (add_all Symbols_init data)") simp
  then show ?thesis
    using assms(2) by (auto simp add: script_def Let_def bind_err_def getitem_def)
qed

lemma cross_multiply:
  fixes a c s s' d d' t :: complex
  assumes "a - s - d * t = 0" "c - s' - d' * t = 0"
  shows "(a - s) * d' = (c - s') * d"
proof -
  have "a - s = d * t" "c - s' = d' * t" using assms by simp_all
  then show ?thesis by simp
qed

lemma canonical_position_velocity:
  fixes sx sy sz dx dy dz t0 t1 t2 :: complex
  assumes a: "19 - sx - (dx + 2) * t0 = 0" "13 - sy - (dy - 1) * t0 = 0" "30 - sz - (dz + 2) * t0 = 0"
    "18 - sx - (dx + 1) * t1 = 0" "19 - sy - (dy + 1) * t1 = 0" "22 - sz - (dz + 2) * t1 = 0"
    "20 - sx - (dx + 2) * t2 = 0" "25 - sy - (dy + 2) * t2 = 0" "34 - sz - (dz + 4) * t2 = 0"
  shows "sx = 24 \<and> sy = 13 \<and> sz = 10 \<and> dx = -3 \<and> dy = 1 \<and> dz = 2"
proof -
  note c = cross_multiply [OF a(1) a(2)] cross_multiply [OF a(2) a(3)] cross_multiply [OF a(1) a(3)]
    cross_multiply [OF a(4) a(5)] cross_multiply [OF a(5) a(6)] cross_multiply [OF a(4) a(6)]
    cross_multiply [OF a(7) a(8)] cross_multiply [OF a(8) a(9)] cross_multiply [OF a(7) a(9)]
  have "sx = 24" using c by algebra
  moreover have "sy = 13" using c by algebra
  moreover have "sz = 10" using c by algebra
  moreover have "dx = -3" using c by algebra
  moreover have "dy = 1" using c by algebra
  moreover have "dz = 2" using c by algebra
  ultimately show ?thesis by simp
qed

lemma canonical_roots:
  assumes "is_solution (equations_from 0 canonical_data) (map Sym (unknown_names 5)) r"
  shows "eval env (r ! 0) = 24 \<and> eval env (r ! 1) = 13 \<and> eval env (r ! 2) = 10 \<and>
         eval env (r ! 3) = -3 \<and> eval env (r ! 4) = 1 \<and> eval env (r ! 5) = 2"
proof -
  have len: "length r = 6 + length canonical_data"
    using assms by (simp add: is_solution_def length_unknown_names canonical_data_def)
  have n: "length canonical_data = 5"
    by (simp add: canonical_data_def)
  have eqs: "num_val (H_s (canonical_data ! i) ! vi)
         + num_val (H_d (canonical_data ! i) ! vi) * eval env (r ! (6 + i))
         - eval env (r ! vi) - eval env (r ! (3 + vi)) * eval env (r ! (6 + i)) = 0"
    if "i < 5" "vi < 3" for i vi
    using assms is_solution_equations_from [OF len] that by (simp add: n)
  show ?thesis
  proof (rule canonical_position_velocity [of _ _ "eval env (r ! 6)" _ _ _ _ "eval env (r ! 7)" "eval env (r ! 8)"])
    show "19 - eval env (r ! 0) - (eval env (r ! 3) + 2) * eval env (r ! 6) = 0"
      "13 - eval env (r ! 1) - (eval env (r ! 4) - 1) * eval env (r ! 6) = 0"
      "30 - eval env (r ! 2) - (eval env (r ! 5) + 2) * eval env (r ! 6) = 0"
      using eqs [of 0 0] eqs [of 0 1] eqs [of 0 2]
      by (simp_all add: canonical_data_def hailstone_def algebra_simps)
    show "18 - eval env (r ! 0) - (eval env (r ! 3) + 1) * eval env (r ! 7) = 0"
      "19 - eval env (r ! 1) - (eval env (r ! 4) + 1) * eval env (r ! 7) = 0"
      "22 - eval env (r ! 2) - (eval env (r ! 5) + 2) * eval env (r ! 7) = 0"
      using eqs [of 1 0] eqs [of 1 1] eqs [of 1 2]
      by (simp_all add: canonical_data_def hailstone_def algebra_simps)
    show "20 - eval env (r ! 0) - (eval env (r ! 3) + 2) * eval env (r ! 8) = 0"
      "25 - eval env (r ! 1) - (eval env (r ! 4) + 2) * eval env (r ! 8) = 0"
      "34 - eval env (r ! 2) - (eval env (r ! 5) + 4) * eval env (r ! 8) = 0"
      using eqs [of 2 0] eqs [of 2 1] eqs [of 2 2]
      by (simp_all add: canonical_data_def hailstone_def algebra_simps)
  qed
qed

lemma all_less_5: "(\<forall>i < 5. Q i) \<longleftrightarrow> Q (0::nat) \<and> Q 1 \<and> Q 2 \<and> Q 3 \<and> Q 4"
proof -
  have "i < 5 \<longleftrightarrow> i = 0 \<or> i = 1 \<or> i = 2 \<or> i = 3 \<or> i = 4" for i :: nat by arith
  then show ?thesis by metis
qed

lemma length_canonical_data: "length canonical_data = 5"
  by (simp add: canonical_data_def)

lemma unknowns_canonical:
  "unknowns (add_all Symbols_init canonical_data) = map Sym (unknown_names 5)"
  unfolding unknowns_add_all length_canonical_data ..

lemma canonical_tuple_is_solution:
  "is_solution (equations_from 0 canonical_data) (map Sym (unknown_names 5)) canonical_tuple"
proof -
  have len: "length canonical_tuple = 6 + length canonical_data"
    by (simp add: canonical_tuple_def numbers_def canonical_data_def)
  have n: "length canonical_data = 5"
    by (simp add: canonical_data_def)
  show ?thesis
    using is_solution_equations_from [OF len]
    unfolding n all_less_5 all_less_3
    by (simp add: canonical_data_def hailstone_def canonical_tuple_def numbers_def)
qed

text \<open>
  C1. For the five hailstones of the worked example: when the solver answers the
  equations built by \<open>solve\<close> with at least one tuple, and the first tuple is a solution
  of these equations, then \<open>solve\<close> returns this tuple, its first six entries have the
  values \<open>24, 13, 10\<close> (position) and \<open>-3, 1, 2\<close> (velocity), and the sum that the script
  reports has the value 47.
\<close>

theorem canonical_answer:
  assumes "build_equations (add_all Symbols_init canonical_data) = Inr eqs"
    and "slv eqs (unknowns (add_all Symbols_init canonical_data)) = Inr (r # rest)"
    and "is_solution eqs (unknowns (add_all Symbols_init canonical_data)) r"
  shows "snd (solve slv (add_all Symbols_init canonical_data)) = Inr r \<and>
         eval env (r ! 0) = 24 \<and> eval env (r ! 1) = 13 \<and> eval env (r ! 2) = 10 \<and>
         eval env (r ! 3) = -3 \<and> eval env (r ! 4) = 1 \<and> eval env (r ! 5) = 2 \<and>
         snd (script slv canonical_data) = Inr (Add (Add (r ! 0) (r ! 1)) (r ! 2)) \<and>
         eval env (Add (Add (r ! 0) (r ! 1)) (r ! 2)) = 47"
proof -
  have eqs: "eqs = equations_from 0 canonical_data"
    using assms(1) build_equations_add_all [OF well_formed_canonical] by simp
  note v = unknowns_canonical
  have sol: "is_solution (equations_from 0 canonical_data) (map Sym (unknown_names 5)) r"
    using assms(3) by (simp add: eqs v)
  then have len: "length r = 11"
    by (simp add: is_solution_def length_unknown_names)
  have res: "snd (solve slv (add_all Symbols_init canonical_data)) = Inr r"
    using assms(1,2) by (simp add: solve_def bind_err_def getitem_def)
  have roots: "eval env (r ! 0) = 24 \<and> eval env (r ! 1) = 13 \<and> eval env (r ! 2) = 10 \<and>
         eval env (r ! 3) = -3 \<and> eval env (r ! 4) = 1 \<and> eval env (r ! 5) = 2"
    by (rule canonical_roots [OF sol])
  have "snd (script slv canonical_data) = Inr (Add (Add (r ! 0) (r ! 1)) (r ! 2))"
    using res len by (intro script_result) simp_all
  with res roots show ?thesis by simp
qed

text \<open>The hypotheses of C1 hold for the solver that answers the solution of the example.\<close>

theorem canonical_answer_witness:
  "build_equations (add_all Symbols_init canonical_data) = Inr (equations_from 0 canonical_data) \<and>
   answer_with [canonical_tuple] (equations_from 0 canonical_data)
     (unknowns (add_all Symbols_init canonical_data)) = Inr [canonical_tuple] \<and>
   is_solution (equations_from 0 canonical_data)
     (unknowns (add_all Symbols_init canonical_data)) canonical_tuple \<and>
   snd (solve (answer_with [canonical_tuple]) (add_all Symbols_init canonical_data))
     = Inr canonical_tuple \<and>
   snd (script (answer_with [canonical_tuple]) canonical_data)
     = Inr (Add (Add (Num (PyFloat 24)) (Num (PyFloat 13))) (Num (PyFloat 10))) \<and>
   eval (\<lambda>x. 0) (Add (Add (Num (PyFloat 24)) (Num (PyFloat 13))) (Num (PyFloat 10))) = 47"
proof -
  have b: "build_equations (add_all Symbols_init canonical_data)
      = Inr (equations_from 0 canonical_data)"
    by (rule build_equations_add_all [OF well_formed_canonical])
  have a: "answer_with [canonical_tuple] (equations_from 0 canonical_data)
     (unknowns (add_all Symbols_init canonical_data)) = Inr [canonical_tuple]"
    by (simp add: answer_with_def)
  have s: "is_solution (equations_from 0 canonical_data)
     (unknowns (add_all Symbols_init canonical_data)) canonical_tuple"
    using canonical_tuple_is_solution by (simp only: unknowns_canonical)
  show ?thesis
    using canonical_answer [where slv = "answer_with [canonical_tuple]"
        and eqs = "equations_from 0 canonical_data" and r = canonical_tuple and rest = "[]"
        and env = "\<lambda>x. 0", OF b a s] b a s
    by (simp add: canonical_tuple_def numbers_def)
qed

subsection \<open>The reported sum and the order of the unknowns\<close>

lemma names_add_all:
  "map fst (Symbols_s (add_all Symbols_init hs)) = unknown_names (length hs)"
  by (simp add: add_all_s comp_def)

lemma solve_success:
  assumes "build_equations st = Inr eqs" and "slv eqs (unknowns st) = Inr (r # rest)"
  shows "solve slv st = (map PrintEquation eqs, Inr r)"
  using assms by (simp add: solve_def bind_err_def getitem_def)

lemma entry_of_unknown:
  assumes "length r = 6 + n" "j < 6 + n"
  shows "map_of (zip (map Sym (unknown_names n)) r) (Sym (unknown_names n ! j)) = Some (r ! j)"
proof -
  have d: "distinct (map Sym (unknown_names n))"
    by (simp add: distinct_map distinct_unknown_names inj_on_def)
  have "map_of (zip (map Sym (unknown_names n)) r) (map Sym (unknown_names n) ! j) = Some (r ! j)"
    using assms by (intro map_of_zip_nth d) (simp_all add: length_unknown_names)
  then show ?thesis
    using assms by (simp add: length_unknown_names)
qed

lemma position_entries:
  assumes "length r = 6 + n"
  shows "map_of (zip (map Sym (unknown_names n)) r) (Sym ''sx'') = Some (r ! 0)"
    and "map_of (zip (map Sym (unknown_names n)) r) (Sym ''sy'') = Some (r ! 1)"
    and "map_of (zip (map Sym (unknown_names n)) r) (Sym ''sz'') = Some (r ! 2)"
  using entry_of_unknown [OF assms, of 0] entry_of_unknown [OF assms, of 1]
    entry_of_unknown [OF assms, of 2]
  by (simp_all add: unknown_names_def)

lemma position_values:
  assumes "length r = 6 + n"
  shows "bind_unknowns env (map Sym (unknown_names n)) r ''sx'' = eval env (r ! 0)"
    and "bind_unknowns env (map Sym (unknown_names n)) r ''sy'' = eval env (r ! 1)"
    and "bind_unknowns env (map Sym (unknown_names n)) r ''sz'' = eval env (r ! 2)"
  using position_entries [OF assms] by (simp_all add: bind_unknowns_def)

lemma script_output:
  assumes "solve slv (add_all Symbols_init data) = (printed, Inr r)" "3 \<le> length r"
  shows "fst (script slv data) =
           map PrintH data @ [PrintSymbols (Symbols_s (add_all Symbols_init data))] @ printed
           @ [PrintPlace (take 6 r), PrintSum (Add (Add (r ! 0) (r ! 1)) (r ! 2))]"
  using assms by (auto simp add: script_def Let_def bind_err_def getitem_def)

lemma unknown_names_explicit:
  "unknown_names n =
     [''sx'', ''sy'', ''sz'', ''dx'', ''dy'', ''dz''] @ map (\<lambda>i. ''t'' @ str_nat i) [0..<n]"
  by (simp add: unknown_names_def time_name_def)

text \<open>
  C2. For every input on which \<open>solve\<close> succeeds: when the equations are built, and the
  solver, asked for the unknowns that \<open>solve\<close> hands to it, answers a first tuple with one
  entry per unknown, then \<open>solve\<close> returns this tuple; the entries that the tuple gives to
  the unknowns \<open>sx\<close>, \<open>sy\<close> and \<open>sz\<close> of that call are its entries 0, 1 and 2; and the
  value the script reports (its result and its last \<open>print\<close>) is the sum of these three
  entries, whose value is the sum of the values that the tuple assigns to \<open>sx\<close>, \<open>sy\<close> and
  \<open>sz\<close>. No velocity or time entry takes part.
\<close>

theorem reported_value_is_position_sum:
  assumes "build_equations (add_all Symbols_init data) = Inr eqs"
    and "slv eqs (unknowns (add_all Symbols_init data)) = Inr (r # rest)"
    and "length r = length (unknowns (add_all Symbols_init data))"
  shows "snd (solve slv (add_all Symbols_init data)) = Inr r \<and>
         map_of (zip (unknowns (add_all Symbols_init data)) r) (Sym ''sx'') = Some (r ! 0) \<and>
         map_of (zip (unknowns (add_all Symbols_init data)) r) (Sym ''sy'') = Some (r ! 1) \<and>
         map_of (zip (unknowns (add_all Symbols_init data)) r) (Sym ''sz'') = Some (r ! 2) \<and>
         snd (script slv data) = Inr (Add (Add (r ! 0) (r ! 1)) (r ! 2)) \<and>
         last (fst (script slv data)) = PrintSum (Add (Add (r ! 0) (r ! 1)) (r ! 2)) \<and>
         eval env (Add (Add (r ! 0) (r ! 1)) (r ! 2)) =
           bind_unknowns env (unknowns (add_all Symbols_init data)) r ''sx''
           + bind_unknowns env (unknowns (add_all Symbols_init data)) r ''sy''
           + bind_unknowns env (unknowns (add_all Symbols_init data)) r ''sz''"
proof -
  have len: "length r = 6 + length data"
    using assms(3) by (simp add: unknowns_add_all length_unknown_names)
  have s: "solve slv (add_all Symbols_init data) = (map PrintEquation eqs, Inr r)"
    by (rule solve_success [where slv = slv and rest = rest, OF assms(1,2)])
  have "snd (script slv data) = Inr (Add (Add (r ! 0) (r ! 1)) (r ! 2))"
    using s len by (intro script_result) simp_all
  moreover have "last (fst (script slv data)) = PrintSum (Add (Add (r ! 0) (r ! 1)) (r ! 2))"
    using script_output [OF s] len by simp
  ultimately show ?thesis
    using s position_entries [OF len] position_values [OF len, of env]
    by (simp add: unknowns_add_all)
qed

text \<open>
  The hypotheses of C2 hold for the worked example and the solver that answers its
  solution.
\<close>

theorem reported_value_is_position_sum_witness:
  "build_equations (add_all Symbols_init canonical_data) = Inr (equations_from 0 canonical_data) \<and>
   answer_with [canonical_tuple] (equations_from 0 canonical_data)
     (unknowns (add_all Symbols_init canonical_data)) = Inr [canonical_tuple] \<and>
   length canonical_tuple = length (unknowns (add_all Symbols_init canonical_data)) \<and>
   snd (solve (answer_with [canonical_tuple]) (add_all Symbols_init canonical_data))
     = Inr canonical_tuple \<and>
   map_of (zip (unknowns (add_all Symbols_init canonical_data)) canonical_tuple) (Sym ''sx'')
     = Some (Num (PyFloat 24)) \<and>
   map_of (zip (unknowns (add_all Symbols_init canonical_data)) canonical_tuple) (Sym ''sy'')
     = Some (Num (PyFloat 13)) \<and>
   map_of (zip (unknowns (add_all Symbols_init canonical_data)) canonical_tuple) (Sym ''sz'')
     = Some (Num (PyFloat 10)) \<and>
   last (fst (script (answer_with [canonical_tuple]) canonical_data))
     = PrintSum (Add (Add (Num (PyFloat 24)) (Num (PyFloat 13))) (Num (PyFloat 10)))"
proof -
  have b: "build_equations (add_all Symbols_init canonical_data)
      = Inr (equations_from 0 canonical_data)"
    by (rule build_equations_add_all [OF well_formed_canonical])
  have a: "answer_with [canonical_tuple] (equations_from 0 canonical_data)
     (unknowns (add_all Symbols_init canonical_data)) = Inr [canonical_tuple]"
    by (simp add: answer_with_def)
  have l: "length canonical_tuple = length (unknowns (add_all Symbols_init canonical_data))"
    by (simp add: unknowns_canonical length_unknown_names canonical_tuple_def numbers_def)
  have c: "canonical_tuple ! 0 = Num (PyFloat 24)" "canonical_tuple ! 1 = Num (PyFloat 13)"
    "canonical_tuple ! 2 = Num (PyFloat 10)"
    by (simp_all add: canonical_tuple_def numbers_def)
  show ?thesis
    using reported_value_is_position_sum [where slv = "answer_with [canonical_tuple]"
        and data = canonical_data and eqs = "equations_from 0 canonical_data"
        and r = canonical_tuple and rest = "[]" and env = "\<lambda>x. 0", OF b a l] b a l
    by (simp only: c simp_thms)
qed

text \<open>
  C10. For every input of \<open>N\<close> hailstones the symbol table lists the unknowns in the
  insertion order \<open>sx, sy, sz, dx, dy, dz, t0, ..., t(N-1)\<close>; \<open>solve\<close> hands the symbols of
  these names, in this order, to the solver together with the equations it built, and
  returns element 0 of the answer. So, when the solver answers a first tuple with one
  entry per unknown, \<open>solve\<close> returns it, the entries that it gives to \<open>sx\<close>, \<open>sy\<close> and
  \<open>sz\<close> are its first three, and the sum the script reports is taken over exactly these
  three entries.
\<close>

theorem unknowns_in_insertion_order:
  "map fst (Symbols_s (add_all Symbols_init hs)) =
     [''sx'', ''sy'', ''sz'', ''dx'', ''dy'', ''dz''] @ map (\<lambda>i. ''t'' @ str_nat i) [0..<length hs] \<and>
   unknowns (add_all Symbols_init hs) =
     map Sym ([''sx'', ''sy'', ''sz'', ''dx'', ''dy'', ''dz'']
              @ map (\<lambda>i. ''t'' @ str_nat i) [0..<length hs]) \<and>
   snd (solve slv (add_all Symbols_init hs)) =
     (case build_equations (add_all Symbols_init hs) of
        Inl e \<Rightarrow> Inl e
      | Inr eqs \<Rightarrow>
          bind_err
            (slv eqs (map Sym ([''sx'', ''sy'', ''sz'', ''dx'', ''dy'', ''dz'']
                               @ map (\<lambda>i. ''t'' @ str_nat i) [0..<length hs])))
            (\<lambda>sols. getitem sols 0)) \<and>
   (\<forall>eqs r rest.
      build_equations (add_all Symbols_init hs) = Inr eqs \<and>
      slv eqs (map Sym ([''sx'', ''sy'', ''sz'', ''dx'', ''dy'', ''dz'']
                        @ map (\<lambda>i. ''t'' @ str_nat i) [0..<length hs])) = Inr (r # rest) \<and>
      length r = 6 + length hs \<longrightarrow>
      snd (solve slv (add_all Symbols_init hs)) = Inr r \<and>
      map (map_of (zip (map Sym ([''sx'', ''sy'', ''sz'', ''dx'', ''dy'', ''dz'']
                                 @ map (\<lambda>i. ''t'' @ str_nat i) [0..<length hs])) r))
        [Sym ''sx'', Sym ''sy'', Sym ''sz''] = [Some (r ! 0), Some (r ! 1), Some (r ! 2)] \<and>
      snd (script slv hs) = Inr (Add (Add (r ! 0) (r ! 1)) (r ! 2)))"
proof -
  let ?st = "add_all Symbols_init hs"
  let ?names = "[''sx'', ''sy'', ''sz'', ''dx'', ''dy'', ''dz'']
                @ map (\<lambda>i. ''t'' @ str_nat i) [0..<length hs]"
  have n: "unknown_names (length hs) = ?names"
    by (rule unknown_names_explicit)
  have keys: "map fst (Symbols_s ?st) = ?names"
    using names_add_all [of hs] by (simp only: n)
  have v: "unknowns ?st = map Sym ?names"
    using unknowns_add_all [of hs] by (simp only: n)
  have call: "snd (solve slv ?st) =
     (case build_equations ?st of
        Inl e \<Rightarrow> Inl e
      | Inr eqs \<Rightarrow> bind_err (slv eqs (map Sym ?names)) (\<lambda>sols. getitem sols 0))"
    unfolding v [symmetric] by (simp add: solve_def split: sum.splits)
  have tuple: "snd (solve slv ?st) = Inr r \<and>
      map (map_of (zip (map Sym ?names) r)) [Sym ''sx'', Sym ''sy'', Sym ''sz'']
        = [Some (r ! 0), Some (r ! 1), Some (r ! 2)] \<and>
      snd (script slv hs) = Inr (Add (Add (r ! 0) (r ! 1)) (r ! 2))"
    if b: "build_equations ?st = Inr eqs" and a: "slv eqs (map Sym ?names) = Inr (r # rest)"
      and len: "length r = 6 + length hs" for eqs r rest
  proof -
    have s: "solve slv ?st = (map PrintEquation eqs, Inr r)"
      by (rule solve_success [where slv = slv and rest = rest, OF b])
        (simp only: v a)
    have "snd (script slv hs) = Inr (Add (Add (r ! 0) (r ! 1)) (r ! 2))"
      using s len by (intro script_result) simp_all
    then show ?thesis
      using s position_entries [OF len] by (simp add: n)
  qed
  show ?thesis
    using keys v call tuple by blast
qed

text \<open>The hypotheses inside C10 hold for the worked example.\<close>

theorem unknowns_in_insertion_order_witness:
  "map fst (Symbols_s (add_all Symbols_init canonical_data)) =
     [''sx'', ''sy'', ''sz'', ''dx'', ''dy'', ''dz'', ''t0'', ''t1'', ''t2'', ''t3'', ''t4''] \<and>
   build_equations (add_all Symbols_init canonical_data) = Inr (equations_from 0 canonical_data) \<and>
   answer_with [canonical_tuple] (equations_from 0 canonical_data)
     (map Sym [''sx'', ''sy'', ''sz'', ''dx'', ''dy'', ''dz'', ''t0'', ''t1'', ''t2'', ''t3'', ''t4''])
     = Inr [canonical_tuple] \<and>
   length canonical_tuple = 6 + length canonical_data \<and>
   snd (solve (answer_with [canonical_tuple]) (add_all Symbols_init canonical_data))
     = Inr canonical_tuple \<and>
   snd (script (answer_with [canonical_tuple]) canonical_data)
     = Inr (Add (Add (Num (PyFloat 24)) (Num (PyFloat 13))) (Num (PyFloat 10)))"
proof -
  have t: "map (\<lambda>i. ''t'' @ str_nat i) [0..<length canonical_data]
      = [''t0'', ''t1'', ''t2'', ''t3'', ''t4'']"
    by (simp add: length_canonical_data upt_conv_Cons str_nat_digit digit_char_def)
  have b: "build_equations (add_all Symbols_init canonical_data)
      = Inr (equations_from 0 canonical_data)"
    by (rule build_equations_add_all [OF well_formed_canonical])
  have a: "answer_with [canonical_tuple] (equations_from 0 canonical_data)
     (map Sym ([''sx'', ''sy'', ''sz'', ''dx'', ''dy'', ''dz'']
               @ map (\<lambda>i. ''t'' @ str_nat i) [0..<length canonical_data]))
     = Inr (canonical_tuple # [])"
    by (simp add: answer_with_def)
  have l: "length canonical_tuple = 6 + length canonical_data"
    by (simp add: canonical_tuple_def numbers_def length_canonical_data)
  have c: "canonical_tuple ! 0 = Num (PyFloat 24)" "canonical_tuple ! 1 = Num (PyFloat 13)"
    "canonical_tuple ! 2 = Num (PyFloat 10)"
    by (simp_all add: canonical_tuple_def numbers_def)
  note inst = unknowns_in_insertion_order [of canonical_data "answer_with [canonical_tuple]"]
  from inst have keys: "map fst (Symbols_s (add_all Symbols_init canonical_data)) =
     [''sx'', ''sy'', ''sz'', ''dx'', ''dy'', ''dz''] @ [''t0'', ''t1'', ''t2'', ''t3'', ''t4'']"
    unfolding t by blast
  from inst b a l have "snd (solve (answer_with [canonical_tuple]) (add_all Symbols_init canonical_data))
      = Inr canonical_tuple \<and>
    snd (script (answer_with [canonical_tuple]) canonical_data)
      = Inr (Add (Add (canonical_tuple ! 0) (canonical_tuple ! 1)) (canonical_tuple ! 2))"
    by blast
  then show ?thesis
    using keys b a l unfolding t c by simp
qed

subsection \<open>The system handed to the solver, and what \<open>solve\<close> prints\<close>

lemma equations_from_nth:
  "i < length hs \<Longrightarrow> vi < 3 \<Longrightarrow>
   equations_from k hs ! (3 * i + vi) = residual (k + i) (hs ! i) vi (axis_name vi)"
proof (induction hs arbitrary: k i)
  case Nil
  then show ?case by simp
next
  case (Cons h hs)
  show ?case
  proof (cases i)
    case 0
    from \<open>vi < 3\<close> consider "vi = 0" | "vi = 1" | "vi = 2" by atomize_elim arith
    then show ?thesis
      using 0 by cases (simp_all add: axis_name_def)
  next
    case (Suc j)
    then have j: "j < length hs" using Cons.prems by simp
    have "3 * i + vi = 3 + (3 * j + vi)" using Suc by simp
    then have "equations_from k (h # hs) ! (3 * i + vi) = equations_from (Suc k) hs ! (3 * j + vi)"
      by (simp add: nth_append numeral_3_eq_3)
    also have "\<dots> = residual (Suc k + j) (hs ! j) vi (axis_name vi)"
      by (rule Cons.IH [OF j \<open>vi < 3\<close>])
    finally show ?thesis using Suc by simp
  qed
qed

lemma free_symbols_residual:
  "free_symbols (residual i h vi p) = {[CHR ''s'', p], [CHR ''d'', p], time_name i}"
  by (auto simp: residual_def)

text \<open>
  C3, as stated, fails: the first equation built for the worked example mentions the
  time unknown \<open>t0\<close>, and \<open>t0\<close> is among the unknowns handed to the solver.
\<close>

theorem time_unknown_in_system:
  "(case build_equations (add_all Symbols_init canonical_data) of
      Inl e \<Rightarrow> None
    | Inr eqs \<Rightarrow> Some (free_symbols (eqs ! 0))) = Some {''sx'', ''dx'', ''t0''} \<and>
   Sym ''t0'' \<in> set (unknowns (add_all Symbols_init canonical_data))"
proof -
  have "free_symbols (equations_from 0 canonical_data ! 0) = {''sx'', ''dx'', ''t0''}"
    by (auto simp: canonical_data_def free_symbols_residual time_name_0)
  moreover have "Sym ''t0'' \<in> set (unknowns (add_all Symbols_init canonical_data))"
    unfolding unknowns_canonical
    by (simp add: unknown_names_def upt_conv_Cons time_name_0)
  ultimately show ?thesis
    by (simp add: build_equations_add_all [OF well_formed_canonical])
qed

text \<open>
  C3, amended. For every input of \<open>N\<close> hailstones with three position and three velocity
  components each, the system handed to the solver has \<open>3 * N\<close> equations and the
  \<open>6 + N\<close> unknowns \<open>sx, sy, sz, dx, dy, dz, t0, ..., t(N-1)\<close>; equation \<open>3 * i + vi\<close>
  mentions exactly the position and the velocity unknown of axis \<open>vi\<close> and the time unknown
  \<open>t_i\<close>. The times are solved jointly with position and velocity, by the one call
  of the solver.
\<close>

theorem every_equation_has_its_time_unknown:
  assumes "list_all well_formed hs"
  shows "\<exists>eqs. build_equations (add_all Symbols_init hs) = Inr eqs \<and>
           length eqs = 3 * length hs \<and>
           (\<forall>i < length hs. \<forall>vi < 3.
              free_symbols (eqs ! (3 * i + vi)) =
                {[CHR ''s'', axis_name vi], [CHR ''d'', axis_name vi], ''t'' @ str_nat i}) \<and>
           unknowns (add_all Symbols_init hs) =
             map Sym ([''sx'', ''sy'', ''sz'', ''dx'', ''dy'', ''dz'']
                      @ map (\<lambda>i. ''t'' @ str_nat i) [0..<length hs]) \<and>
           snd (solve slv (add_all Symbols_init hs)) =
             bind_err (slv eqs (unknowns (add_all Symbols_init hs))) (\<lambda>sols. getitem sols 0)"
proof (intro exI conjI)
  show "build_equations (add_all Symbols_init hs) = Inr (equations_from 0 hs)"
    by (rule build_equations_add_all [OF assms])
  show "length (equations_from 0 hs) = 3 * length hs"
    by (rule length_equations_from)
  show "\<forall>i < length hs. \<forall>vi < 3.
      free_symbols (equations_from 0 hs ! (3 * i + vi)) =
        {[CHR ''s'', axis_name vi], [CHR ''d'', axis_name vi], ''t'' @ str_nat i}"
    by (simp add: equations_from_nth free_symbols_residual time_name_def)
  show "unknowns (add_all Symbols_init hs) =
      map Sym ([''sx'', ''sy'', ''sz'', ''dx'', ''dy'', ''dz'']
               @ map (\<lambda>i. ''t'' @ str_nat i) [0..<length hs])"
    by (simp add: unknowns_add_all unknown_names_def time_name_def)
  show "snd (solve slv (add_all Symbols_init hs)) =
      bind_err (slv (equations_from 0 hs) (unknowns (add_all Symbols_init hs)))
        (\<lambda>sols. getitem sols 0)"
    by (simp add: solve_add_all [OF assms] unknowns_add_all)
qed

text \<open>The hypothesis of the amended C3 holds for the worked example.\<close>

theorem every_equation_has_its_time_unknown_witness:
  "list_all well_formed canonical_data \<and>
   (\<exists>eqs. build_equations (add_all Symbols_init canonical_data) = Inr eqs \<and>
      length eqs = 15 \<and>
      free_symbols (eqs ! 0) = {''sx'', ''dx'', ''t0''})"
proof -
  obtain eqs where e: "build_equations (add_all Symbols_init canonical_data) = Inr eqs"
    "length eqs = 3 * length canonical_data"
    "\<forall>i < length canonical_data. \<forall>vi < 3.
       free_symbols (eqs ! (3 * i + vi)) =
         {[CHR ''s'', axis_name vi], [CHR ''d'', axis_name vi], ''t'' @ str_nat i}"
    using every_equation_has_its_time_unknown [OF well_formed_canonical] by blast
  from e(3) [rule_format, of 0 0] have "free_symbols (eqs ! 0) = {''sx'', ''dx'', ''t0''}"
    by (simp add: length_canonical_data axis_name_def str_nat_digit digit_char_def)
  with e(1,2) well_formed_canonical show ?thesis
    by (simp add: length_canonical_data)
qed

text \<open>
  C4, as stated, fails: for the five hailstones of the worked example \<open>solve\<close> builds 15
  equations, not 6.
\<close>

theorem fifteen_equations_for_five_hailstones:
  "(case build_equations (add_all Symbols_init canonical_data) of
      Inl e \<Rightarrow> None
    | Inr eqs \<Rightarrow> Some (length eqs)) = Some 15"
  by (simp add: build_equations_add_all [OF well_formed_canonical] length_equations_from
      length_canonical_data)

text \<open>
  C4, amended. For every input of \<open>N\<close> hailstones with three position and three velocity
  components each (in particular for \<open>N \<ge> 3\<close>), \<open>solve\<close> pairs no hailstones: it builds
  one equation per hailstone and axis, equation \<open>3 * i + vi\<close> being
  \<open>h_i.s[vi] + h_i.d[vi]*t_i - s_p - d_p*t_i\<close>, and submits these \<open>3 * N\<close> equations to
  the solver in one call.
\<close>

theorem three_equations_per_hailstone:
  assumes "list_all well_formed hs"
  shows "\<exists>eqs. build_equations (add_all Symbols_init hs) = Inr eqs \<and>
           length eqs = 3 * length hs \<and>
           (\<forall>i < length hs. \<forall>vi < 3.
              eqs ! (3 * i + vi) =
                Sub (Sub (Add (Num (H_s (hs ! i) ! vi))
                              (Mul (Num (H_d (hs ! i) ! vi)) (Sym (''t'' @ str_nat i))))
                         (Sym [CHR ''s'', axis_name vi]))
                    (Mul (Sym [CHR ''d'', axis_name vi]) (Sym (''t'' @ str_nat i)))) \<and>
           snd (solve slv (add_all Symbols_init hs)) =
             bind_err (slv eqs (unknowns (add_all Symbols_init hs))) (\<lambda>sols. getitem sols 0)"
proof (intro exI conjI)
  show "build_equations (add_all Symbols_init hs) = Inr (equations_from 0 hs)"
    by (rule build_equations_add_all [OF assms])
  show "length (equations_from 0 hs) = 3 * length hs"
    by (rule length_equations_from)
  show "\<forall>i < length hs. \<forall>vi < 3.
      equations_from 0 hs ! (3 * i + vi) =
        Sub (Sub (Add (Num (H_s (hs ! i) ! vi))
                      (Mul (Num (H_d (hs ! i) ! vi)) (Sym (''t'' @ str_nat i))))
                 (Sym [CHR ''s'', axis_name vi]))
            (Mul (Sym [CHR ''d'', axis_name vi]) (Sym (''t'' @ str_nat i)))"
    by (simp add: equations_from_nth residual_def time_name_def)
  show "snd (solve slv (add_all Symbols_init hs)) =
      bind_err (slv (equations_from 0 hs) (unknowns (add_all Symbols_init hs)))
        (\<lambda>sols. getitem sols 0)"
    by (simp add: solve_add_all [OF assms] unknowns_add_all)
qed

text \<open>The hypothesis of the amended C4 holds for the worked example.\<close>

theorem three_equations_per_hailstone_witness:
  "list_all well_formed canonical_data \<and>
   (\<exists>eqs. build_equations (add_all Symbols_init canonical_data) = Inr eqs \<and>
      length eqs = 15 \<and>
      eqs ! 0 = Sub (Sub (Add (Num (PyFloat 19)) (Mul (Num (PyFloat (-2))) (Sym ''t0'')))
                         (Sym ''sx''))
                    (Mul (Sym ''dx'') (Sym ''t0'')))"
proof -
  obtain eqs where e: "build_equations (add_all Symbols_init canonical_data) = Inr eqs"
    "length eqs = 3 * length canonical_data"
    "\<forall>i < length canonical_data. \<forall>vi < 3.
       eqs ! (3 * i + vi) =
         Sub (Sub (Add (Num (H_s (canonical_data ! i) ! vi))
                       (Mul (Num (H_d (canonical_data ! i) ! vi)) (Sym (''t'' @ str_nat i))))
                  (Sym [CHR ''s'', axis_name vi]))
             (Mul (Sym [CHR ''d'', axis_name vi]) (Sym (''t'' @ str_nat i)))"
    using three_equations_per_hailstone [OF well_formed_canonical] by blast
  from e(3) [rule_format, of 0 0]
  have "eqs ! 0 = Sub (Sub (Add (Num (PyFloat 19)) (Mul (Num (PyFloat (-2))) (Sym ''t0'')))
                         (Sym ''sx''))
                    (Mul (Sym ''dx'') (Sym ''t0''))"
    by (simp add: length_canonical_data axis_name_def str_nat_digit digit_char_def
        canonical_data_def hailstone_def)
  with e(1,2) well_formed_canonical show ?thesis
    by (simp add: length_canonical_data)
qed

text \<open>
  C9, as stated, fails: on the worked example \<open>solve\<close> prints 15 lines, the first of them
  the equation of hailstone 0 on the x axis.
\<close>

theorem solve_prints_on_example:
  "length (fst (solve (answer_with [canonical_tuple]) (add_all Symbols_init canonical_data))) = 15 \<and>
   hd (fst (solve (answer_with [canonical_tuple]) (add_all Symbols_init canonical_data))) =
     PrintEquation
       (Sub (Sub (Add (Num (PyFloat 19)) (Mul (Num (PyFloat (-2))) (Sym ''t0''))) (Sym ''sx''))
            (Mul (Sym ''dx'') (Sym ''t0'')))"
  by (simp add: solve_add_all [OF well_formed_canonical] length_equations_from
      length_canonical_data)
    (simp add: canonical_data_def residual_def hailstone_def time_name_0)

text \<open>
  C9, amended. \<open>solve\<close> has one effect: for every input of \<open>N\<close> hailstones with three
  position and three velocity components each, and whatever the solver answers, it prints
  the \<open>3 * N\<close> equations, one \<open>print\<close> call each, in the order it built them, and nothing
  else; its result is the exception that the solver raises, \<open>IndexError\<close> when the solver
  answers no tuple, or the first tuple of the solver's answer.
\<close>

theorem solve_prints_every_equation:
  assumes "list_all well_formed hs"
  shows "\<exists>eqs. build_equations (add_all Symbols_init hs) = Inr eqs \<and>
           fst (solve slv (add_all Symbols_init hs)) = map PrintEquation eqs \<and>
           length (fst (solve slv (add_all Symbols_init hs))) = 3 * length hs \<and>
           snd (solve slv (add_all Symbols_init hs)) =
             bind_err (slv eqs (unknowns (add_all Symbols_init hs))) (\<lambda>sols. getitem sols 0)"
  by (simp add: solve_add_all [OF assms] build_equations_add_all [OF assms]
      length_equations_from unknowns_add_all)

text \<open>The hypothesis of the amended C9 holds for the worked example.\<close>

theorem solve_prints_every_equation_witness:
  "list_all well_formed canonical_data \<and>
   (\<exists>eqs. build_equations (add_all Symbols_init canonical_data) = Inr eqs \<and>
      fst (solve (answer_with []) (add_all Symbols_init canonical_data)) = map PrintEquation eqs \<and>
      length (fst (solve (answer_with []) (add_all Symbols_init canonical_data))) = 15) \<and>
   snd (solve (answer_with []) (add_all Symbols_init canonical_data)) = Inl IndexError"
proof -
  obtain eqs where "build_equations (add_all Symbols_init canonical_data) = Inr eqs"
    "fst (solve (answer_with []) (add_all Symbols_init canonical_data)) = map PrintEquation eqs"
    "length (fst (solve (answer_with []) (add_all Symbols_init canonical_data)))
       = 3 * length canonical_data"
    "snd (solve (answer_with []) (add_all Symbols_init canonical_data)) =
       bind_err (answer_with [] eqs (unknowns (add_all Symbols_init canonical_data)))
         (\<lambda>sols. getitem sols 0)"
    using solve_prints_every_equation [OF well_formed_canonical, of "answer_with []"] by blast
  then show ?thesis
    using well_formed_canonical
    by (simp add: length_canonical_data answer_with_def bind_err_def getitem_def)
qed

subsection \<open>Inputs that do not determine the trajectory\<close>

lemma all_less_1: "(\<forall>i < 1. Q i) \<longleftrightarrow> Q (0::nat)"
  by simp

lemma lone_tuple_is_solution:
  "is_solution (equations_from 0 lone_data) (map Sym (unknown_names 1)) lone_tuple"
proof -
  have len: "length lone_tuple = 6 + length lone_data"
    by (simp add: lone_tuple_def numbers_def lone_data_def)
  have n: "length lone_data = 1"
    by (simp add: lone_data_def)
  show ?thesis
    using is_solution_equations_from [OF len]
    unfolding n all_less_1 all_less_3
    by (simp add: lone_data_def hailstone_def lone_tuple_def numbers_def)
qed

lemma well_formed_lone: "list_all well_formed lone_data"
  by (simp add: lone_data_def well_formed_hailstone)

lemma unknowns_lone: "unknowns (add_all Symbols_init lone_data) = map Sym (unknown_names 1)"
  by (simp add: unknowns_add_all lone_data_def)

lemma solve_first_tuple:
  assumes "list_all well_formed hs"
  shows "snd (solve slv (add_all Symbols_init hs)) =
     (case slv (equations_from 0 hs) (unknowns (add_all Symbols_init hs)) of
        Inl e \<Rightarrow> Inl e
      | Inr [] \<Rightarrow> Inl IndexError
      | Inr (t # ts) \<Rightarrow> Inr t)"
  by (simp add: solve_add_all [OF assms] unknowns_add_all bind_err_def getitem_def
      split: sum.splits list.splits)

text \<open>
  C5, as stated, fails: for an input of one hailstone, with a solver that answers a
  solution of the equations, \<open>solve\<close> returns this solution and the script reports the
  sum of its first three entries; nothing fails.
\<close>

theorem one_hailstone_is_solved:
  "(case build_equations (add_all Symbols_init lone_data) of
      Inl e \<Rightarrow> False
    | Inr eqs \<Rightarrow> is_solution eqs (unknowns (add_all Symbols_init lone_data)) lone_tuple) \<and>
   snd (solve (answer_with [lone_tuple]) (add_all Symbols_init lone_data)) = Inr lone_tuple \<and>
   snd (script (answer_with [lone_tuple]) lone_data) =
     Inr (Add (Add (Num (PyFloat 19)) (Num (PyFloat 13))) (Num (PyFloat 30)))"
proof -
  have s: "snd (solve (answer_with [lone_tuple]) (add_all Symbols_init lone_data)) = Inr lone_tuple"
    by (simp add: solve_first_tuple [OF well_formed_lone] answer_with_def)
  have "snd (script (answer_with [lone_tuple]) lone_data) =
      Inr (Add (Add (lone_tuple ! 0) (lone_tuple ! 1)) (lone_tuple ! 2))"
    by (rule script_result [OF s]) (simp add: lone_tuple_def numbers_def)
  then show ?thesis
    using s lone_tuple_is_solution
    by (simp add: build_equations_add_all [OF well_formed_lone] unknowns_lone
        lone_tuple_def numbers_def)
qed

text \<open>
  C5, amended. \<open>solve\<close> checks neither the number of hailstones nor their velocities and
  has no error \<open>InsufficientData\<close>: for every input of hailstones with three position and
  three velocity components each, however few, it returns the first tuple of the solver's
  answer; it fails only with the exception that the solver raises, or with \<open>IndexError\<close>
  when the solver answers no tuple.
\<close>

theorem solve_checks_no_input:
  assumes "list_all well_formed hs"
  shows "\<exists>eqs. build_equations (add_all Symbols_init hs) = Inr eqs \<and>
           snd (solve slv (add_all Symbols_init hs)) =
             (case slv eqs (unknowns (add_all Symbols_init hs)) of
                Inl e \<Rightarrow> Inl e
              | Inr [] \<Rightarrow> Inl IndexError
              | Inr (t # ts) \<Rightarrow> Inr t)"
  using build_equations_add_all [OF assms] solve_first_tuple [OF assms] by simp

text \<open>The hypothesis of the amended C5 holds for an input of one hailstone.\<close>

theorem solve_checks_no_input_witness:
  "list_all well_formed lone_data \<and>
   snd (solve (answer_with []) (add_all Symbols_init lone_data)) = Inl IndexError \<and>
   snd (solve (answer_with [lone_tuple]) (add_all Symbols_init lone_data)) = Inr lone_tuple"
  using solve_checks_no_input [OF well_formed_lone, of "answer_with []"]
    solve_checks_no_input [OF well_formed_lone, of "answer_with [lone_tuple]"]
    well_formed_lone
  by (auto simp add: answer_with_def)

lemma well_formed_shared: "list_all well_formed shared_data"
  by (simp add: shared_data_def well_formed_hailstone)

lemma length_shared_data: "length shared_data = 3"
  by (simp add: shared_data_def)

lemma unknowns_shared: "unknowns (add_all Symbols_init shared_data) = map Sym (unknown_names 3)"
  unfolding unknowns_add_all length_shared_data ..

lemma shared_tuple_is_solution:
  "is_solution (equations_from 0 shared_data) (map Sym (unknown_names 3)) shared_tuple"
proof -
  have len: "length shared_tuple = 6 + length shared_data"
    by (simp add: shared_tuple_def numbers_def shared_data_def)
  have n: "length shared_data = 3"
    by (simp add: shared_data_def)
  show ?thesis
    using is_solution_equations_from [OF len]
    unfolding n all_less_3
    by (simp add: shared_data_def hailstone_def shared_tuple_def numbers_def)
qed

text \<open>
  C6, as stated, fails: three hailstones share the velocity \<open>(-2, 1, -2)\<close>; with a solver
  that answers a solution of the equations, \<open>solve\<close> returns it and the script reports
  a sum.
\<close>

theorem shared_velocity_is_solved:
  "(case build_equations (add_all Symbols_init shared_data) of
      Inl e \<Rightarrow> False
    | Inr eqs \<Rightarrow> is_solution eqs (unknowns (add_all Symbols_init shared_data)) shared_tuple) \<and>
   snd (solve (answer_with [shared_tuple]) (add_all Symbols_init shared_data)) = Inr shared_tuple \<and>
   snd (script (answer_with [shared_tuple]) shared_data) =
     Inr (Add (Add (Num (PyFloat 19)) (Num (PyFloat 13))) (Num (PyFloat 30)))"
proof -
  have s: "snd (solve (answer_with [shared_tuple]) (add_all Symbols_init shared_data))
      = Inr shared_tuple"
    by (simp add: solve_first_tuple [OF well_formed_shared] answer_with_def)
  have "snd (script (answer_with [shared_tuple]) shared_data) =
      Inr (Add (Add (shared_tuple ! 0) (shared_tuple ! 1)) (shared_tuple ! 2))"
    by (rule script_result [OF s]) (simp add: shared_tuple_def numbers_def)
  then show ?thesis
    using s shared_tuple_is_solution
    by (simp add: build_equations_add_all [OF well_formed_shared] unknowns_shared
        shared_tuple_def numbers_def)
qed

text \<open>
  C6, amended. \<open>solve\<close> does not detect that all hailstones share one velocity \<open>vel\<close> and
  has no error \<open>DegenerateSystem\<close> or \<open>InsufficientData\<close>. For every such input a tuple
  with one entry per unknown solves the equations built exactly when every hailstone
  position is \<open>S + t_i * (D - vel)\<close> on each axis, \<open>S\<close>, \<open>D\<close> and \<open>t_i\<close> being the
  values of the tuple's entries; and \<open>solve\<close> returns the first tuple of the solver's
  answer, failing only with the solver's exception or with \<open>IndexError\<close> when the
  solver answers no tuple.
\<close>

theorem shared_velocity_not_detected:
  assumes "list_all well_formed hs" and "\<forall>h \<in> set hs. H_d h = vel"
    and "length r = length (unknowns (add_all Symbols_init hs))"
  shows "\<exists>eqs. build_equations (add_all Symbols_init hs) = Inr eqs \<and>
           (is_solution eqs (unknowns (add_all Symbols_init hs)) r \<longleftrightarrow>
              (\<forall>env. \<forall>i < length hs. \<forall>vi < 3.
                 num_val (H_s (hs ! i) ! vi) =
                   eval env (r ! vi)
                   + eval env (r ! (6 + i)) * (eval env (r ! (3 + vi)) - num_val (vel ! vi)))) \<and>
           snd (solve slv (add_all Symbols_init hs)) =
             (case slv eqs (unknowns (add_all Symbols_init hs)) of
                Inl e \<Rightarrow> Inl e
              | Inr [] \<Rightarrow> Inl IndexError
              | Inr (t # ts) \<Rightarrow> Inr t)"
proof (intro exI conjI)
  show "build_equations (add_all Symbols_init hs) = Inr (equations_from 0 hs)"
    by (rule build_equations_add_all [OF assms(1)])
  have len: "length r = 6 + length hs"
    using assms(3) by (simp add: unknowns_add_all length_unknown_names)
  have vel: "H_d (hs ! i) = vel" if "i < length hs" for i
    using assms(2) that by simp
  have "(num_val (H_s (hs ! i) ! vi) + num_val (H_d (hs ! i) ! vi) * eval env (r ! (6 + i))
           - eval env (r ! vi) - eval env (r ! (3 + vi)) * eval env (r ! (6 + i)) = 0) \<longleftrightarrow>
        (num_val (H_s (hs ! i) ! vi) =
           eval env (r ! vi)
           + eval env (r ! (6 + i)) * (eval env (r ! (3 + vi)) - num_val (vel ! vi)))"
    if "i < length hs" for i vi env
    unfolding vel [OF that] by (auto simp: algebra_simps)
  then show "is_solution (equations_from 0 hs) (unknowns (add_all Symbols_init hs)) r \<longleftrightarrow>
      (\<forall>env. \<forall>i < length hs. \<forall>vi < 3.
         num_val (H_s (hs ! i) ! vi) =
           eval env (r ! vi)
           + eval env (r ! (6 + i)) * (eval env (r ! (3 + vi)) - num_val (vel ! vi)))"
    unfolding unknowns_add_all is_solution_equations_from [OF len] by simp
  show "snd (solve slv (add_all Symbols_init hs)) =
      (case slv (equations_from 0 hs) (unknowns (add_all Symbols_init hs)) of
         Inl e \<Rightarrow> Inl e
       | Inr [] \<Rightarrow> Inl IndexError
       | Inr (t # ts) \<Rightarrow> Inr t)"
    by (rule solve_first_tuple [OF assms(1)])
qed

text \<open>The hypotheses of the amended C6 hold for the three hailstones above.\<close>

theorem shared_velocity_not_detected_witness:
  "list_all well_formed shared_data \<and>
   list_all (\<lambda>h. H_d h = [PyFloat (-2), PyFloat 1, PyFloat (-2)]) shared_data \<and>
   length shared_tuple = length (unknowns (add_all Symbols_init shared_data)) \<and>
   snd (solve (answer_with [shared_tuple]) (add_all Symbols_init shared_data)) = Inr shared_tuple \<and>
   snd (solve (answer_with []) (add_all Symbols_init shared_data)) = Inl IndexError"
proof -
  have v: "\<forall>h \<in> set shared_data. H_d h = [PyFloat (-2), PyFloat 1, PyFloat (-2)]"
    by (simp add: shared_data_def hailstone_def)
  have l: "length shared_tuple = length (unknowns (add_all Symbols_init shared_data))"
    by (simp add: unknowns_shared length_unknown_names shared_tuple_def numbers_def)
  show ?thesis
    using shared_velocity_not_detected [OF well_formed_shared v l, of "answer_with [shared_tuple]"]
      shared_velocity_not_detected [OF well_formed_shared v l, of "answer_with []"]
      well_formed_shared v l
    by (auto simp add: answer_with_def list_all_iff)
qed

subsection \<open>Coordinates are floats\<close>













end
